theory Spec2Isabelle
  imports Main "HOL-Library.Word"
begin

unbundle bit_operations_syntax

section \<open>The audio streamer of \<^verbatim>\<open>tests/test-rtc-input.py\<close>\<close>

text \<open>
  The development embeds the class \<^verbatim>\<open>AudioStreamer\<close> (\<^verbatim>\<open>connect\<close>,
  \<^verbatim>\<open>play_file\<close>, \<^verbatim>\<open>disconnect\<close>) and the coroutine \<^verbatim>\<open>main\<close>.

  The object's fields are a record that every method takes and returns. Everything the
  methods do to the outside (the room, the published tracks, the decoder processes, the
  audio source, the logger, the prompt) is written into a second record, \<open>world\<close>, so
  that "no connection attempt", "no process left running" and "one play" are
  statements about its fields. What the outside answers (whether the room accepts the
  connection, which bytes the decoder writes, whether the audio source takes a frame) is
  an explicit argument. An exception is a value \<open>Inl e\<close> of the result.
\<close>

subsection \<open>Data\<close>

type_synonym byte = "8 word"
type_synonym int16 = "16 word"

datatype error =
    RuntimeError string
  | ValueError string
  | OSError
  | EOFError
  | ConnectError
  | PublishError
  | SinkError
  | CancelledError

text \<open>\<^verbatim>\<open>rtc.AudioFrame(data=..., sample_rate=..., num_channels=..., samples_per_channel=...)\<close>\<close>

record AudioFrame =
  data :: "byte list"
  sample_rate :: nat
  num_channels :: nat
  samples_per_channel :: nat

text \<open>The messages handed to \<^verbatim>\<open>logger\<close>, one constructor per call site.\<close>

datatype logmsg =
    AlreadyConnected
  | ConnectingToRoom string
  | ConnectedToRoom
  | PublishedTrack nat
  | Playing string
  | AudioDuration
  | CouldNotGetDuration
  | FinishedPlaying
  | DisconnectedFromRoom

text \<open>
  A decoder process, as \<^verbatim>\<open>subprocess.Popen\<close> sees it. \<open>returncode\<close> is \<open>None\<close> from
  \<^verbatim>\<open>Popen\<close> on, as long as the process has not been waited for, and the status that
  \<^verbatim>\<open>wait()\<close> returned afterwards. \<open>terminated\<close> says that \<^verbatim>\<open>terminate()\<close> has been called
  on the process before it was waited for.
\<close>

record proc =
  terminated :: bool
  returncode :: "int option"

text \<open>The fields that \<^verbatim>\<open>__init__\<close> sets; a track is named by its number.\<close>

record streamer =
  room_name :: string
  is_connected :: bool
  is_publishing :: bool
  current_track :: "nat option"

record world =
  room_connects :: nat
  room_disconnects :: nat
  tracks_created :: nat
  publications :: "nat list"
  procs :: "proc list"
  sink :: "AudioFrame list"
  prompts :: nat
  logged :: "logmsg list"

text \<open>
  What the outside answers during one \<^verbatim>\<open>play_file\<close>: whether \<^verbatim>\<open>ffprobe\<close> gave a
  duration, whether \<^verbatim>\<open>Popen\<close> started \<^verbatim>\<open>ffmpeg\<close>, the bytes \<^verbatim>\<open>ffmpeg\<close> writes to its
  standard output, the number of the \<^verbatim>\<open>read\<close> call that raises (if one does), the
  number of the \<^verbatim>\<open>capture_frame\<close> call that raises and with what (if one does), and the
  status that \<^verbatim>\<open>wait()\<close> returns.
\<close>

record play_env =
  probe_ok :: bool
  spawn_ok :: bool
  pcm :: "byte list"
  read_fault :: "nat option"
  capture_fault :: "(nat \<times> error) option"
  exit_status :: int

subsection \<open>Bytes and samples\<close>

text \<open>\<^verbatim>\<open>frame_size = 480\<close> and \<^verbatim>\<open>bytes_per_frame = frame_size * 2\<close>\<close>

definition frame_size :: nat where
  "frame_size = 480"

definition bytes_per_frame :: nat where
  "bytes_per_frame = frame_size * 2"

text \<open>One little-endian 16-bit sample from its two bytes, and back.\<close>

definition sample_of :: "byte \<Rightarrow> byte \<Rightarrow> int16" where
  "sample_of lo hi = ucast lo OR push_bit 8 (ucast hi)"

definition bytes_of :: "int16 \<Rightarrow> byte list" where
  "bytes_of v = [ucast v, ucast (drop_bit 8 v)]"

text \<open>
  \<^verbatim>\<open>np.frombuffer(data, dtype=np.int16)\<close>: the samples of the buffer; numpy raises
  \<^verbatim>\<open>ValueError\<close> when the buffer is not a whole number of samples (\<open>None\<close> here).
\<close>

fun frombuffer :: "byte list \<Rightarrow> int16 list option" where
  "frombuffer [] = Some []"
| "frombuffer [b] = None"
| "frombuffer (lo # hi # rest) = map_option ((#) (sample_of lo hi)) (frombuffer rest)"

text \<open>\<^verbatim>\<open>ndarray.tobytes()\<close>\<close>

definition tobytes :: "int16 list \<Rightarrow> byte list" where
  "tobytes vs = concat (map bytes_of vs)"

text \<open>\<^verbatim>\<open>np.pad(a, (0, n))\<close>: \<open>n\<close> zeros after the array.\<close>

definition pad :: "int16 list \<Rightarrow> nat \<Rightarrow> int16 list" where
  "pad a n = a @ replicate n 0"

subsection \<open>\<^verbatim>\<open>play_file\<close>\<close>

text \<open>
  The body of \<^verbatim>\<open>while True\<close>. \<open>i\<close> counts the iterations, \<open>buf\<close> is what the
  decoder has written and the loop has not read yet, \<open>sk\<close> the frames the audio source
  holds. \<^verbatim>\<open>process.stdout\<close> is a buffered reader, so \<^verbatim>\<open>read(n)\<close> returns \<open>n\<close> bytes
  unless the stream ends first.
\<close>

function play_loop ::
  "play_env \<Rightarrow> nat \<Rightarrow> byte list \<Rightarrow> AudioFrame list \<Rightarrow> (error + unit) \<times> AudioFrame list"
where
  "play_loop env i buf sk =
    (if read_fault env = Some i then (Inl OSError, sk)
     else
       let chunk = take bytes_per_frame buf in
       if chunk = [] then (Inr (), sk)
       else
         case frombuffer chunk of
           None \<Rightarrow> (Inl (ValueError ''buffer size must be a multiple of element size''), sk)
         | Some audio_data \<Rightarrow>
             let audio_data' =
                   (if length audio_data < frame_size
                    then pad audio_data (frame_size - length audio_data)
                    else audio_data);
                 frame = \<lparr>data = tobytes audio_data', sample_rate = 24000,
                          num_channels = 1, samples_per_channel = frame_size\<rparr>
             in (case capture_fault env of
                   None \<Rightarrow> play_loop env (i + 1) (drop bytes_per_frame buf) (sk @ [frame])
                 | Some (k, e) \<Rightarrow>
                     (if k = i then (Inl e, sk)
                      else play_loop env (i + 1) (drop bytes_per_frame buf) (sk @ [frame]))))"
  by pat_completeness auto
termination
  by (relation "measure (\<lambda>(env, i, buf, sk). length buf)")
     (auto simp: bytes_per_frame_def frame_size_def)

declare play_loop.simps [simp del]

definition add_log :: "logmsg \<Rightarrow> world \<Rightarrow> world" where
  "add_log m w = w\<lparr>logged := logged w @ [m]\<rparr>"

text \<open>\<^verbatim>\<open>process.terminate()\<close> and \<^verbatim>\<open>process.wait()\<close> on the process numbered \<open>pid\<close>.\<close>

definition terminate :: "nat \<Rightarrow> world \<Rightarrow> world" where
  "terminate pid w =
     (if pid < length (procs w) \<and> returncode (procs w ! pid) = None
      then w\<lparr>procs := (procs w)[pid := (procs w ! pid)\<lparr>terminated := True\<rparr>]\<rparr> else w)"

definition wait :: "nat \<Rightarrow> int \<Rightarrow> world \<Rightarrow> world" where
  "wait pid c w =
     (if pid < length (procs w)
      then w\<lparr>procs := (procs w)[pid := (procs w ! pid)\<lparr>returncode := Some c\<rparr>]\<rparr> else w)"

text \<open>
  \<^verbatim>\<open>play_file\<close>: the connection check, the duration probe (whose failure is caught),
  \<^verbatim>\<open>Popen\<close>, then \<^verbatim>\<open>try: <loop> finally: terminate; wait; log\<close>. The \<^verbatim>\<open>finally\<close> block
  runs whatever the loop's outcome is, and the outcome is then passed on.
\<close>

definition play_file ::
  "string \<Rightarrow> play_env \<Rightarrow> streamer \<Rightarrow> world \<Rightarrow> (error + unit) \<times> streamer \<times> world"
where
  "play_file file_path env s w =
    (if \<not> is_connected s
     then (Inl (RuntimeError ''Not connected. Call connect() first.''), s, w)
     else
       let w1 = add_log (Playing file_path) w;
           w2 = add_log (if probe_ok env then AudioDuration else CouldNotGetDuration) w1
       in if \<not> spawn_ok env then (Inl OSError, s, w2)
          else
            let pid = length (procs w2);
                w3 = w2\<lparr>procs := procs w2 @ [\<lparr>terminated = False, returncode = None\<rparr>]\<rparr>;
                (r, sk) = play_loop env 0 (pcm env) (sink w3);
                w4 = w3\<lparr>sink := sk\<rparr>;
                w5 = add_log FinishedPlaying (wait pid (exit_status env) (terminate pid w4))
            in (r, s, w5))"

subsection \<open>\<^verbatim>\<open>__init__\<close>, \<^verbatim>\<open>connect\<close> and \<^verbatim>\<open>disconnect\<close>\<close>

definition AudioStreamer :: "string \<Rightarrow> streamer" where
  "AudioStreamer room =
     \<lparr>room_name = room, is_connected = False, is_publishing = False, current_track = None\<rparr>"

text \<open>
  What the outside answers during one \<^verbatim>\<open>connect\<close>: the three environment variables,
  whether \<^verbatim>\<open>room.connect\<close> returns or raises, and whether \<^verbatim>\<open>publish_track\<close> does.
\<close>

record conn_env =
  livekit_url :: "string option"
  livekit_api_key :: "string option"
  livekit_api_secret :: "string option"
  connect_ok :: bool
  publish_ok :: bool

text \<open>Python's truth value of \<^verbatim>\<open>os.environ.get(...)\<close>: set and not empty.\<close>

definition truthy :: "string option \<Rightarrow> bool" where
  "truthy v = (case v of None \<Rightarrow> False | Some x \<Rightarrow> x \<noteq> [])"

definition connect ::
  "conn_env \<Rightarrow> streamer \<Rightarrow> world \<Rightarrow> (error + unit) \<times> streamer \<times> world"
where
  "connect cenv s w =
    (if is_connected s then (Inr (), s, add_log AlreadyConnected w)
     else if \<not> (truthy (livekit_url cenv) \<and> truthy (livekit_api_key cenv)
                 \<and> truthy (livekit_api_secret cenv))
     then (Inl (ValueError ''Missing LiveKit credentials in environment''), s, w)
     else
       let w1 = (add_log (ConnectingToRoom (room_name s)) w)
                  \<lparr>room_connects := room_connects w + 1\<rparr>
       in if \<not> connect_ok cenv then (Inl ConnectError, s, w1)
          else
            let s1 = s\<lparr>is_connected := True\<rparr>;
                w2 = add_log ConnectedToRoom w1;
                track = tracks_created w2;
                w3 = w2\<lparr>tracks_created := tracks_created w2 + 1\<rparr>;
                s2 = s1\<lparr>current_track := Some track\<rparr>
            in if \<not> publish_ok cenv then (Inl PublishError, s2, w3)
               else
                 let w4 = w3\<lparr>publications := publications w3 @ [track]\<rparr>;
                     s3 = s2\<lparr>is_publishing := True\<rparr>
                 in (Inr (), s3, add_log (PublishedTrack track) w4))"

text \<open>\<^verbatim>\<open>room.disconnect()\<close> is taken to return: the room gives no error for it.\<close>

definition disconnect :: "streamer \<Rightarrow> world \<Rightarrow> (error + unit) \<times> streamer \<times> world" where
  "disconnect s w =
    (if is_connected s
     then (Inr (), s\<lparr>is_connected := False\<rparr>,
           add_log DisconnectedFromRoom (w\<lparr>room_disconnects := room_disconnects w + 1\<rparr>))
     else (Inr (), s, w))"

subsection \<open>\<^verbatim>\<open>main\<close>\<close>

text \<open>
  A line of input is a \<open>string\<close>, read as the characters with code points below 256.
  \<^verbatim>\<open>str.strip()\<close> removes the white space of \<^verbatim>\<open>str.isspace\<close> at both ends, and
  \<^verbatim>\<open>str.lower()\<close> maps the capital letters of that range to their small letters.
\<close>

definition isspace :: "char \<Rightarrow> bool" where
  "isspace c =
     (let n = (of_char c :: nat)
      in (9 \<le> n \<and> n \<le> 13) \<or> (28 \<le> n \<and> n \<le> 32) \<or> n = 133 \<or> n = 160)"

definition strip :: "string \<Rightarrow> string" where
  "strip l = rev (dropWhile isspace (rev (dropWhile isspace l)))"

definition lower_char :: "char \<Rightarrow> char" where
  "lower_char c =
     (let n = (of_char c :: nat)
      in if (65 \<le> n \<and> n \<le> 90) \<or> (192 \<le> n \<and> n \<le> 222 \<and> n \<noteq> 215)
         then char_of (n + 32) else c)"

definition lower :: "string \<Rightarrow> string" where
  "lower l = map lower_char l"

text \<open>
  One pass through the body of \<^verbatim>\<open>while True\<close> in \<^verbatim>\<open>main\<close>, given the line that
  \<^verbatim>\<open>input\<close> returns and what the outside answers if a play starts. \<open>prompts\<close> counts
  how often the loop has asked for a line.
\<close>

datatype iteration = Break | Continue | Raise error

definition loop_body ::
  "string \<Rightarrow> string \<times> play_env \<Rightarrow> streamer \<Rightarrow> world \<Rightarrow> iteration \<times> streamer \<times> world"
where
  "loop_body input_file inp s w =
    (let input_value = fst inp;
         w1 = w\<lparr>prompts := prompts w + 1\<rparr>
     in if lower (strip input_value) = ''q'' then (Break, s, w1)
        else
          case play_file input_file (snd inp) s w1 of
            (Inl e, s', w') \<Rightarrow> (Raise e, s', w')
          | (Inr u, s', w') \<Rightarrow> (Continue, s', w'))"

text \<open>
  The loop over the lines that standard input holds; when it holds no more,
  \<^verbatim>\<open>input\<close> raises \<^verbatim>\<open>EOFError\<close>. Nothing in the loop catches an exception.
\<close>

fun control_loop ::
  "string \<Rightarrow> (string \<times> play_env) list \<Rightarrow> streamer \<Rightarrow> world
     \<Rightarrow> (error + unit) \<times> streamer \<times> world"
where
  "control_loop input_file [] s w = (Inl EOFError, s, w\<lparr>prompts := prompts w + 1\<rparr>)"
| "control_loop input_file (inp # rest) s w =
    (case loop_body input_file inp s w of
       (Break, s', w') \<Rightarrow> (Inr (), s', w')
     | (Raise e, s', w') \<Rightarrow> (Inl e, s', w')
     | (Continue, s', w') \<Rightarrow> control_loop input_file rest s' w')"

text \<open>
  What \<^verbatim>\<open>main\<close> is given: the parsed \<^verbatim>\<open>args.input_file\<close>, whether
  \<^verbatim>\<open>os.path.isfile\<close> holds of it, the line typed for the room name (\<open>None\<close> when
  standard input is at its end), the answers to \<^verbatim>\<open>connect\<close>, and the lines typed at the
  loop's prompt, each with the answers to the play it may start.
\<close>

record main_env =
  input_file :: string
  isfile :: bool
  room_line :: "string option"
  cenv :: conn_env
  interactions :: "(string \<times> play_env) list"

text \<open>
  \<^verbatim>\<open>main\<close>. The streamer is \<open>None\<close> as long as \<^verbatim>\<open>AudioStreamer(room_name)\<close> has
  not run. \<^verbatim>\<open>try: connect; <loop> finally: disconnect\<close>: the \<^verbatim>\<open>finally\<close> block runs
  whatever happened, and an exception is then passed on.
\<close>

definition main :: "main_env \<Rightarrow> world \<Rightarrow> (error + unit) \<times> streamer option \<times> world" where
  "main menv w =
    (if \<not> isfile menv
     then (Inl (ValueError (''Input file not found: '' @ input_file menv)), None, w)
     else
       case room_line menv of
         None \<Rightarrow> (Inl EOFError, None, w)
       | Some line \<Rightarrow>
           let room = strip line
           in if room = [] then (Inl (ValueError ''Room name cannot be empty''), None, w)
              else
                let streamer = AudioStreamer room;
                    (r, s1, w1) =
                      (case connect (cenv menv) streamer w of
                         (Inl e, s', w') \<Rightarrow> (Inl e, s', w')
                       | (Inr u, s', w') \<Rightarrow>
                           control_loop (input_file menv) (interactions menv) s' w');
                    (d, s2, w2) = disconnect s1 w1
                in (r, Some s2, w2))"

text \<open>
  \<^verbatim>\<open>asyncio.run(main())\<close> as the whole program: the interpreter ends with status 1
  when an exception leaves \<^verbatim>\<open>main\<close> and with status 0 otherwise.
\<close>

definition process_exit :: "(error + unit) \<Rightarrow> int" where
  "process_exit r = (case r of Inl e \<Rightarrow> 1 | Inr u \<Rightarrow> 0)"

text \<open>A world in which nothing has happened yet.\<close>

definition world0 :: world where
  "world0 = \<lparr>room_connects = 0, room_disconnects = 0, tracks_created = 0, publications = [],
              procs = [], sink = [], prompts = 0, logged = []\<rparr>"

subsection \<open>Observations and sample inputs\<close>

text \<open>The frames that the audio source has taken between two worlds.\<close>

definition emitted :: "world \<Rightarrow> world \<Rightarrow> AudioFrame list" where
  "emitted w w' = drop (length (sink w)) (sink w')"

text \<open>How often \<^verbatim>\<open>play_file\<close> has got past its connection check for a file.\<close>

definition plays :: "string \<Rightarrow> world \<Rightarrow> nat" where
  "plays file_path w = count_list (logged w) (Playing file_path)"




text \<open>
  A play in which nothing fails and the decoder writes the given bytes; the answers of a
  room that accepts everything; and the streamer and the world right after a first
  \<^verbatim>\<open>connect\<close> to such a room.
\<close>

definition clean_run :: "byte list \<Rightarrow> play_env" where
  "clean_run bytes =
     \<lparr>probe_ok = True, spawn_ok = True, pcm = bytes, read_fault = None,
      capture_fault = None, exit_status = 0\<rparr>"

definition demo_cenv :: conn_env where
  "demo_cenv =
     \<lparr>livekit_url = Some ''wss://host'', livekit_api_key = Some ''key'',
      livekit_api_secret = Some ''secret'', connect_ok = True, publish_ok = True\<rparr>"

definition demo_streamer :: streamer where
  "demo_streamer = fst (snd (connect demo_cenv (AudioStreamer ''room'') world0))"

definition demo_world :: world where
  "demo_world = snd (snd (connect demo_cenv (AudioStreamer ''room'') world0))"

text \<open>A run of \<^verbatim>\<open>main\<close> on an existing file, in the room \<open>room\<close>, with the given lines.\<close>

definition demo_menv :: "(string \<times> play_env) list \<Rightarrow> main_env" where
  "demo_menv lines =
     \<lparr>input_file = ''hello.mp3'', isfile = True, room_line = Some ''room'',
      cenv = demo_cenv, interactions = lines\<rparr>"


text \<open>
  The streamer and the world once the loop of \<^verbatim>\<open>main\<close> has gone through the given lines,
  every pass going on to the next prompt; \<open>None\<close> when one of the passes left the loop.
\<close>

fun passes ::
  "string \<Rightarrow> (string \<times> play_env) list \<Rightarrow> streamer \<Rightarrow> world \<Rightarrow> (streamer \<times> world) option"
where
  "passes file_path [] s w = Some (s, w)"
| "passes file_path (inp # rest) s w =
    (case loop_body file_path inp s w of
       (Break, s', w') \<Rightarrow> None
     | (Raise e, s', w') \<Rightarrow> None
     | (Continue, s', w') \<Rightarrow> passes file_path rest s' w')"

section \<open>Properties\<close>

subsection \<open>Bytes, samples and the frame loop\<close>

lemma bytes_of_sample_of: "bytes_of (sample_of lo hi) = [lo, hi]"
  unfolding bytes_of_def sample_of_def
  apply simp
  apply (rule conjI)
   apply (rule bit_word_eqI)
   apply (simp add: bit_simps)
  apply (rule bit_word_eqI)
  apply (auto simp add: bit_simps dest: bit_imp_le_length)
  done

lemma bytes_of_zero: "bytes_of 0 = [0, 0]"
  by (simp add: bytes_of_def)

lemma tobytes_replicate_zero: "tobytes (replicate n 0) = replicate (2 * n) 0"
  by (induction n) (simp_all add: tobytes_def bytes_of_zero)

lemma tobytes_pad: "tobytes (pad a n) = tobytes a @ replicate (2 * n) 0"
  using tobytes_replicate_zero [of n] by (simp add: pad_def tobytes_def)

lemma frombuffer_even:
  "even (length d) \<Longrightarrow> \<exists>a. frombuffer d = Some a \<and> tobytes a = d \<and> 2 * length a = length d"
  by (induction d rule: frombuffer.induct)
     (auto simp: tobytes_def bytes_of_sample_of)

lemma frombuffer_odd: "odd (length d) \<Longrightarrow> frombuffer d = None"
  by (induction d rule: frombuffer.induct) auto


lemma bpf_pos: "0 < bytes_per_frame" by (simp add: bytes_per_frame_def frame_size_def)
lemma bpf_even: "even bytes_per_frame" by (simp add: bytes_per_frame_def)

lemma frame_data:
  assumes ev: "even (length chunk)" and le: "length chunk \<le> bytes_per_frame"
    and fb: "frombuffer chunk = Some a"
  shows "tobytes (if length a < frame_size then pad a (frame_size - length a) else a)
         = chunk @ replicate (bytes_per_frame - length chunk) 0"
proof -
  from frombuffer_even [OF ev] fb have tb: "tobytes a = chunk" and len: "2 * length a = length chunk"
    by auto
  show ?thesis
  proof (cases "length a < frame_size")
    case True
    have "2 * (frame_size - length a) = bytes_per_frame - length chunk"
      using len by (simp add: bytes_per_frame_def)
    then show ?thesis using True tb by (simp add: tobytes_pad)
  next
    case False
    then have "bytes_per_frame - length chunk = 0"
      using len by (simp add: bytes_per_frame_def)
    then show ?thesis using False tb by simp
  qed
qed

lemma ceil_div_step:
  assumes "0 < (F::nat)" and "0 < L"
  shows "(L + (F - 1)) div F = Suc ((L - F + (F - 1)) div F)"
proof (cases "L \<le> F")
  case True
  have "(L + (F - 1)) div F = 1"
    using assms True by (intro div_nat_eqI) simp_all
  moreover have "(L - F + (F - 1)) div F = 0" using True assms by simp
  ultimately show ?thesis by simp
next
  case False
  then have "L + (F - 1) = (L - F + (F - 1)) + F" by simp
  then have "(L + (F - 1)) div F = (L - F + (F - 1) + F) div F" by simp
  also have "\<dots> = Suc ((L - F + (F - 1)) div F)"
    using assms(1) div_add_self2 [of F "L - F + (F - 1)"] by (simp del: One_nat_def)
  finally show ?thesis .
qed


lemma play_loop_frames:
  assumes "read_fault env = None" and "capture_fault env = None" and "even (length buf)"
  shows "\<exists>fs. play_loop env i buf sk = (Inr (), sk @ fs)
           \<and> length fs = (length buf + (bytes_per_frame - 1)) div bytes_per_frame
           \<and> (\<forall>k < length fs.
                 fs ! k = \<lparr>data = take bytes_per_frame (drop (k * bytes_per_frame) buf)
                                  @ replicate (bytes_per_frame
                                      - length (take bytes_per_frame (drop (k * bytes_per_frame) buf))) 0,
                           sample_rate = 24000, num_channels = 1, samples_per_channel = frame_size\<rparr>)"
  using assms
proof (induction env i buf sk rule: play_loop.induct)
  case (1 env i buf sk)
  let ?chunk = "take bytes_per_frame buf"
  let ?rest = "drop bytes_per_frame buf"
  show ?case
  proof (cases "?chunk = []")
    case True
    then have "buf = []" using bpf_pos by simp
    then show ?thesis using "1.prems"(1) bpf_pos by (simp add: play_loop.simps [of env i])
  next
    case False
    have ev: "even (length ?chunk)" using "1.prems"(3) bpf_even by (simp add: min_def)
    from frombuffer_even [OF ev] obtain a where fb: "frombuffer ?chunk = Some a" by blast
    let ?a' = "if length a < frame_size then pad a (frame_size - length a) else a"
    let ?frame = "\<lparr>data = tobytes ?a', sample_rate = 24000,
                          num_channels = 1, samples_per_channel = frame_size\<rparr>"
    have fd: "tobytes ?a' = ?chunk @ replicate (bytes_per_frame - length ?chunk) 0"
      by (rule frame_data [OF ev _ fb]) simp
    have ev': "even (length ?rest)" using "1.prems"(3) bpf_even by simp
    have rf: "read_fault env \<noteq> Some i" using "1.prems"(1) by simp
    from "1.IH"(1) [OF rf refl False fb refl refl "1.prems"(2) "1.prems"(1) "1.prems"(2) ev']
    obtain fs where
      run: "play_loop env (i + 1) ?rest (sk @ [?frame]) = (Inr (), (sk @ [?frame]) @ fs)"
      and len: "length fs = (length ?rest + (bytes_per_frame - 1)) div bytes_per_frame"
      and nth: "\<forall>k < length fs.
                 fs ! k = \<lparr>data = take bytes_per_frame (drop (k * bytes_per_frame) ?rest)
                                  @ replicate (bytes_per_frame
                                      - length (take bytes_per_frame (drop (k * bytes_per_frame) ?rest))) 0,
                           sample_rate = 24000, num_channels = 1, samples_per_channel = frame_size\<rparr>"
      by auto
    have step: "play_loop env i buf sk = (Inr (), sk @ (?frame # fs))"
      using False fb run "1.prems"(1,2) by (subst play_loop.simps) (simp add: Let_def)
    have nonempty: "0 < length buf" using False by auto
    have len': "length (?frame # fs) = (length buf + (bytes_per_frame - 1)) div bytes_per_frame"
      using len ceil_div_step [OF bpf_pos nonempty] by simp
    have shift: "\<And>k. drop (Suc k * bytes_per_frame) buf = drop (k * bytes_per_frame) ?rest"
      by (simp add: add.commute)
    have nth': "\<forall>k < length (?frame # fs).
                 (?frame # fs) ! k = \<lparr>data = take bytes_per_frame (drop (k * bytes_per_frame) buf)
                                  @ replicate (bytes_per_frame
                                      - length (take bytes_per_frame (drop (k * bytes_per_frame) buf))) 0,
                           sample_rate = 24000, num_channels = 1, samples_per_channel = frame_size\<rparr>"
    proof (intro allI impI)
      fix k assume k: "k < length (?frame # fs)"
      show "(?frame # fs) ! k = \<lparr>data = take bytes_per_frame (drop (k * bytes_per_frame) buf)
                                  @ replicate (bytes_per_frame
                                      - length (take bytes_per_frame (drop (k * bytes_per_frame) buf))) 0,
                           sample_rate = 24000, num_channels = 1, samples_per_channel = frame_size\<rparr>"
      proof (cases k)
        case 0
        then show ?thesis using fd by simp
      next
        case (Suc j)
        then have "j < length fs" using k by simp
        with nth have "fs ! j = \<lparr>data = take bytes_per_frame (drop (j * bytes_per_frame) ?rest)
                                  @ replicate (bytes_per_frame
                                      - length (take bytes_per_frame (drop (j * bytes_per_frame) ?rest))) 0,
                           sample_rate = 24000, num_channels = 1, samples_per_channel = frame_size\<rparr>"
          by blast
        then show ?thesis unfolding Suc shift by simp
      qed
    qed
    show ?thesis using step len' nth' by blast
  qed
qed

lemma play_file_ok:
  assumes "is_connected s" and "spawn_ok env" and "read_fault env = None"
    and "capture_fault env = None" and "even (length (pcm env))"
  shows "\<exists>fs w'. play_file f env s w = (Inr (), s, w')
           \<and> sink w' = sink w @ fs
           \<and> procs w' = procs w @ [\<lparr>terminated = True, returncode = Some (exit_status env)\<rparr>]
           \<and> length fs = (length (pcm env) + (bytes_per_frame - 1)) div bytes_per_frame
           \<and> (\<forall>k < length fs.
                 fs ! k = \<lparr>data = take bytes_per_frame (drop (k * bytes_per_frame) (pcm env))
                                  @ replicate (bytes_per_frame
                                      - length (take bytes_per_frame (drop (k * bytes_per_frame) (pcm env)))) 0,
                           sample_rate = 24000, num_channels = 1, samples_per_channel = frame_size\<rparr>)"
proof -
  from play_loop_frames [OF assms(3,4,5), of 0 "sink w"]
  obtain fs where run: "play_loop env 0 (pcm env) (sink w) = (Inr (), sink w @ fs)"
    and len: "length fs = (length (pcm env) + (bytes_per_frame - 1)) div bytes_per_frame"
    and nth: "\<forall>k < length fs.
                 fs ! k = \<lparr>data = take bytes_per_frame (drop (k * bytes_per_frame) (pcm env))
                                  @ replicate (bytes_per_frame
                                      - length (take bytes_per_frame (drop (k * bytes_per_frame) (pcm env)))) 0,
                           sample_rate = 24000, num_channels = 1, samples_per_channel = frame_size\<rparr>"
    by blast
  have "\<exists>w'. play_file f env s w = (Inr (), s, w') \<and> sink w' = sink w @ fs
          \<and> procs w' = procs w @ [\<lparr>terminated = True, returncode = Some (exit_status env)\<rparr>]"
    using assms(1,2) run
    by (simp add: play_file_def Let_def add_log_def terminate_def wait_def nth_append)
  then show ?thesis using len nth by blast
qed

lemma demo_streamer_eq:
  "demo_streamer =
     \<lparr>room_name = ''room'', is_connected = True, is_publishing = True, current_track = Some 0\<rparr>"
  by (simp add: demo_streamer_def demo_cenv_def connect_def AudioStreamer_def world0_def
      truthy_def add_log_def Let_def)

lemma demo_world_eq:
  "demo_world =
     \<lparr>room_connects = 1, room_disconnects = 0, tracks_created = 1, publications = [0],
      procs = [], sink = [], prompts = 0,
      logged = [ConnectingToRoom ''room'', ConnectedToRoom, PublishedTrack 0]\<rparr>"
  by (simp add: demo_world_def demo_cenv_def connect_def AudioStreamer_def world0_def
      truthy_def add_log_def Let_def)

lemma bpf_960: "bytes_per_frame = 960"
  by (simp add: bytes_per_frame_def frame_size_def)

lemma full_chunk:
  assumes "k < length xs div bytes_per_frame"
  shows "length (take bytes_per_frame (drop (k * bytes_per_frame) xs)) = bytes_per_frame"
proof -
  have "Suc k * bytes_per_frame \<le> (length xs div bytes_per_frame) * bytes_per_frame"
    using assms by (intro mult_le_mono1) simp
  also have "\<dots> \<le> length xs" by simp
  finally show ?thesis by simp
qed

lemma ceil_div_cases:
  assumes "0 < (F::nat)"
  shows "(L + (F - 1)) div F = (if L mod F = 0 then L div F else Suc (L div F))"
proof -
  define q where "q = L div F"
  define m where "m = L mod F"
  have L: "L = m + q * F" unfolding q_def m_def by simp
  have m: "m < F" unfolding m_def using assms by simp
  show ?thesis
  proof (cases "m = 0")
    case True
    have e: "L + (F - 1) = (F - 1) + q * F" using L True by simp
    have "(L + (F - 1)) div F = ((F - 1) + q * F) div F" by (simp only: e)
    also have "\<dots> = q + (F - 1) div F"
      using assms div_mult_self1 [of F "F - 1" q] by simp
    also have "\<dots> = q" using assms by simp
    finally show ?thesis using True unfolding q_def m_def by simp
  next
    case False
    have "m + q * F + (F - 1) = (m - 1) + (F + q * F)" using False assms by arith
    then have e: "L + (F - 1) = (m - 1) + Suc q * F" using L by simp
    have "(L + (F - 1)) div F = ((m - 1) + Suc q * F) div F" by (simp only: e)
    also have "\<dots> = Suc q + (m - 1) div F"
      using assms div_mult_self1 [of F "m - 1" "Suc q"] by simp
    also have "\<dots> = Suc q" using m by simp
    finally show ?thesis using False unfolding q_def m_def by simp
  qed
qed

subsection \<open>Framing\<close>

text \<open>
  Claim C1, as amended. On a connected session, when \<^verbatim>\<open>ffmpeg\<close> starts, no read fails,
  the audio source takes every frame and the decoder's output is a whole number of 16-bit
  samples (an even number \<open>L\<close> of bytes), \<^verbatim>\<open>play_file\<close> returns normally and the audio
  source receives exactly \<open>ceil(L / F)\<close> frames, written \<open>(L + (F - 1)) div F\<close>, with
  \<open>F = 960\<close>. Every frame holds \<open>F\<close> bytes for 480 samples at 24000 Hz, mono; each of the
  first \<open>L div F\<close> frames is the corresponding stretch of \<open>F\<close> bytes of the output; when
  \<open>L mod F\<close> is not zero the last frame is the remaining \<open>L mod F\<close> bytes followed by
  zeros; when \<open>L\<close> is a multiple of \<open>F\<close> there are \<open>L div F\<close> frames, so none is
  padded; and when \<open>L = 0\<close> there is no frame.
\<close>

theorem play_file_chunks:
  assumes "is_connected s" and "spawn_ok env" and "read_fault env = None"
    and "capture_fault env = None" and "even (length (pcm env))"
    and "play_file f env s w = (r, s', w')"
  shows "r = Inr ()
       \<and> sink w' = sink w @ emitted w w'
       \<and> bytes_per_frame = 960
       \<and> length (emitted w w') = (length (pcm env) + (bytes_per_frame - 1)) div bytes_per_frame
       \<and> (\<forall>k < length (emitted w w').
            length (data (emitted w w' ! k)) = bytes_per_frame
            \<and> samples_per_channel (emitted w w' ! k) = 480
            \<and> sample_rate (emitted w w' ! k) = 24000
            \<and> num_channels (emitted w w' ! k) = 1)
       \<and> (\<forall>k < length (pcm env) div bytes_per_frame.
            data (emitted w w' ! k) = take bytes_per_frame (drop (k * bytes_per_frame) (pcm env)))
       \<and> (length (pcm env) mod bytes_per_frame \<noteq> 0 \<longrightarrow>
            data (last (emitted w w'))
              = drop (length (pcm env) - length (pcm env) mod bytes_per_frame) (pcm env)
                @ replicate (bytes_per_frame - length (pcm env) mod bytes_per_frame) 0)
       \<and> (length (pcm env) mod bytes_per_frame = 0 \<longrightarrow>
            length (emitted w w') = length (pcm env) div bytes_per_frame)
       \<and> (pcm env = [] \<longrightarrow> emitted w w' = [])"
proof -
  let ?F = bytes_per_frame
  let ?L = "length (pcm env)"
  from play_file_ok [OF assms(1-5), of f w] assms(6)
  obtain fs where r: "r = Inr ()" and snk: "sink w' = sink w @ fs"
    and len: "length fs = (?L + (?F - 1)) div ?F"
    and nth: "\<forall>k < length fs.
                 fs ! k = \<lparr>data = take ?F (drop (k * ?F) (pcm env))
                                  @ replicate (?F - length (take ?F (drop (k * ?F) (pcm env)))) 0,
                           sample_rate = 24000, num_channels = 1, samples_per_channel = frame_size\<rparr>"
    by auto
  have em: "emitted w w' = fs" using snk by (simp add: emitted_def)
  have len2: "length fs = (if ?L mod ?F = 0 then ?L div ?F else Suc (?L div ?F))"
    using len ceil_div_cases [OF bpf_pos, of ?L] by simp
  have c5: "\<forall>k < length fs. length (data (fs ! k)) = ?F
            \<and> samples_per_channel (fs ! k) = 480
            \<and> sample_rate (fs ! k) = 24000
            \<and> num_channels (fs ! k) = 1"
    using nth by (simp add: frame_size_def)
  have c6: "\<forall>k < ?L div ?F. data (fs ! k) = take ?F (drop (k * ?F) (pcm env))"
  proof (intro allI impI)
    fix k assume k: "k < ?L div ?F"
    then have "k < length fs" using len2 by (simp split: if_splits)
    then have "data (fs ! k) = take ?F (drop (k * ?F) (pcm env))
                 @ replicate (?F - length (take ?F (drop (k * ?F) (pcm env)))) 0"
      using nth by simp
    then show "data (fs ! k) = take ?F (drop (k * ?F) (pcm env))"
      using full_chunk [OF k] by simp
  qed
  have c7: "?L mod ?F \<noteq> 0 \<longrightarrow>
            data (last fs) = drop (?L - ?L mod ?F) (pcm env) @ replicate (?F - ?L mod ?F) 0"
  proof
    assume nz: "?L mod ?F \<noteq> 0"
    then have lfs: "length fs = Suc (?L div ?F)" using len2 by simp
    then have "fs \<noteq> []" by auto
    then have "last fs = fs ! (?L div ?F)" using lfs by (simp add: last_conv_nth)
    moreover have "fs ! (?L div ?F) = \<lparr>data = take ?F (drop (?L div ?F * ?F) (pcm env))
                                  @ replicate (?F - length (take ?F (drop (?L div ?F * ?F) (pcm env)))) 0,
                           sample_rate = 24000, num_channels = 1, samples_per_channel = frame_size\<rparr>"
      using nth lfs by simp
    moreover have off: "?L div ?F * ?F = ?L - ?L mod ?F"
      by (simp add: minus_mod_eq_div_mult [symmetric])
    moreover have "length (drop (?L - ?L mod ?F) (pcm env)) = ?L mod ?F" by simp
    moreover have "?L mod ?F < ?F" using bpf_pos by simp
    ultimately show "data (last fs) = drop (?L - ?L mod ?F) (pcm env) @ replicate (?F - ?L mod ?F) 0"
      by simp
  qed
  have c8: "?L mod ?F = 0 \<longrightarrow> length fs = ?L div ?F" using len2 by simp
  have c9: "pcm env = [] \<longrightarrow> fs = []" using len2 by auto
  show ?thesis unfolding em using r snk bpf_960 len c5 c6 c7 c8 c9
    by (intro conjI) assumption+
qed


theorem play_file_chunks_witness:
  "is_connected demo_streamer
   \<and> spawn_ok (clean_run (replicate 1400 7))
   \<and> read_fault (clean_run (replicate 1400 7)) = None
   \<and> capture_fault (clean_run (replicate 1400 7)) = None
   \<and> even (length (pcm (clean_run (replicate 1400 7))))
   \<and> fst (play_file ''hello.mp3'' (clean_run (replicate 1400 7)) demo_streamer demo_world) = Inr ()
   \<and> length (emitted demo_world
        (snd (snd (play_file ''hello.mp3'' (clean_run (replicate 1400 7)) demo_streamer demo_world)))) = 2
   \<and> data (last (emitted demo_world
        (snd (snd (play_file ''hello.mp3'' (clean_run (replicate 1400 7)) demo_streamer demo_world)))))
       = replicate 440 7 @ replicate 520 0"
proof -
  let ?env = "clean_run (replicate 1400 7)"
  obtain r s' w' where pf: "play_file ''hello.mp3'' ?env demo_streamer demo_world = (r, s', w')"
    by (rule prod_cases3)
  have h1: "is_connected demo_streamer" by (simp add: demo_streamer_eq)
  have h2: "spawn_ok ?env" and h3: "read_fault ?env = None" and h4: "capture_fault ?env = None"
    and h5: "even (length (pcm ?env))"
    by (simp_all add: clean_run_def)
  have len: "length (pcm ?env) = 1400" and pcm: "pcm ?env = replicate 1400 7"
    by (simp_all add: clean_run_def)
  from play_file_chunks [OF h1 h2 h3 h4 h5 pf]
  have "r = Inr ()" and "length (emitted demo_world w') = 2"
    and "data (last (emitted demo_world w')) = replicate 440 7 @ replicate 520 0"
    unfolding len by (simp_all add: pcm bpf_960)
  then show ?thesis using h1 h2 h3 h4 h5 pf by simp
qed

text \<open>
  Claim C1 as stated does not hold for an odd \<open>L\<close>: of a decoder output of one byte,
  \<^verbatim>\<open>np.frombuffer\<close> makes no \<^verbatim>\<open>int16\<close> array, \<^verbatim>\<open>play_file\<close> raises \<^verbatim>\<open>ValueError\<close> and the
  audio source receives no frame, where \<open>ceil(1 / 960) = 1\<close>.
\<close>

theorem play_file_odd_counterexample:
  "fst (play_file ''hello.mp3'' (clean_run [1]) demo_streamer demo_world)
     = Inl (ValueError ''buffer size must be a multiple of element size'')
   \<and> emitted demo_world (snd (snd (play_file ''hello.mp3'' (clean_run [1]) demo_streamer demo_world))) = []
   \<and> (length (pcm (clean_run [1])) + (bytes_per_frame - 1)) div bytes_per_frame = 1"
  by (simp add: play_file_def clean_run_def demo_streamer_eq demo_world_eq play_loop.simps
      Let_def bytes_per_frame_def frame_size_def add_log_def terminate_def wait_def emitted_def)

lemma play_file_streamer: "fst (snd (play_file f env s w)) = s"
  by (simp add: play_file_def Let_def split: prod.splits)

lemma play_file_frame:
  "room_connects (snd (snd (play_file f env s w))) = room_connects w
   \<and> room_disconnects (snd (snd (play_file f env s w))) = room_disconnects w
   \<and> tracks_created (snd (snd (play_file f env s w))) = tracks_created w
   \<and> publications (snd (snd (play_file f env s w))) = publications w
   \<and> prompts (snd (snd (play_file f env s w))) = prompts w"
  by (simp add: play_file_def Let_def add_log_def terminate_def wait_def split: prod.splits)

lemma play_file_procs:
  "procs (snd (snd (play_file f env s w)))
     = procs w @ (if is_connected s \<and> spawn_ok env then [\<lparr>terminated = True, returncode = Some (exit_status env)\<rparr>] else [])"
  by (simp add: play_file_def Let_def add_log_def terminate_def wait_def nth_append
      split: prod.splits)

subsection \<open>The decoder's exit status\<close>

text \<open>
  Claim C2, as amended. When the decoder process ends with a non-zero status (and, as
  for C1, the session is connected, \<^verbatim>\<open>ffmpeg\<close> started, no read failed, the audio source
  took every frame and the bytes read are a whole number of samples), \<^verbatim>\<open>play_file\<close>
  delivers to the audio source every frame obtainable from the bytes read, the last one
  padded with zeros when it is short, and then returns normally: \<^verbatim>\<open>wait()\<close> yields the
  non-zero status and \<^verbatim>\<open>play_file\<close> drops it.
\<close>

theorem play_file_ignores_exit_status:
  assumes "is_connected s" and "spawn_ok env" and "read_fault env = None"
    and "capture_fault env = None" and "even (length (pcm env))"
    and "exit_status env \<noteq> 0"
    and "play_file f env s w = (r, s', w')"
  shows "r = Inr ()
       \<and> sink w' = sink w @ emitted w w'
       \<and> length (emitted w w') = (length (pcm env) + (bytes_per_frame - 1)) div bytes_per_frame
       \<and> (\<forall>k < length (emitted w w').
            data (emitted w w' ! k)
              = take bytes_per_frame (drop (k * bytes_per_frame) (pcm env))
                @ replicate (bytes_per_frame
                    - length (take bytes_per_frame (drop (k * bytes_per_frame) (pcm env)))) 0)
       \<and> procs w' = procs w @ [\<lparr>terminated = True, returncode = Some (exit_status env)\<rparr>]"
proof -
  from play_file_ok [OF assms(1-5), of f w] assms(7)
  obtain fs where r: "r = Inr ()" and snk: "sink w' = sink w @ fs"
    and pr: "procs w' = procs w @ [\<lparr>terminated = True, returncode = Some (exit_status env)\<rparr>]"
    and len: "length fs = (length (pcm env) + (bytes_per_frame - 1)) div bytes_per_frame"
    and nth: "\<forall>k < length fs.
                 fs ! k = \<lparr>data = take bytes_per_frame (drop (k * bytes_per_frame) (pcm env))
                                  @ replicate (bytes_per_frame
                                      - length (take bytes_per_frame (drop (k * bytes_per_frame) (pcm env)))) 0,
                           sample_rate = 24000, num_channels = 1, samples_per_channel = frame_size\<rparr>"
    by auto
  have em: "emitted w w' = fs" using snk by (simp add: emitted_def)
  have dat: "\<forall>k < length fs.
            data (fs ! k)
              = take bytes_per_frame (drop (k * bytes_per_frame) (pcm env))
                @ replicate (bytes_per_frame
                    - length (take bytes_per_frame (drop (k * bytes_per_frame) (pcm env)))) 0"
    using nth by simp
  show ?thesis unfolding em using r snk len dat pr by (intro conjI) assumption+
qed

theorem play_file_ignores_exit_status_witness:
  "is_connected demo_streamer
   \<and> spawn_ok ((clean_run (replicate 300 1))\<lparr>exit_status := 1\<rparr>)
   \<and> read_fault ((clean_run (replicate 300 1))\<lparr>exit_status := 1\<rparr>) = None
   \<and> capture_fault ((clean_run (replicate 300 1))\<lparr>exit_status := 1\<rparr>) = None
   \<and> even (length (pcm ((clean_run (replicate 300 1))\<lparr>exit_status := 1\<rparr>)))
   \<and> exit_status ((clean_run (replicate 300 1))\<lparr>exit_status := 1\<rparr>) \<noteq> 0
   \<and> fst (play_file ''hello.mp3'' ((clean_run (replicate 300 1))\<lparr>exit_status := 1\<rparr>)
            demo_streamer demo_world) = Inr ()
   \<and> length (emitted demo_world (snd (snd (play_file ''hello.mp3''
            ((clean_run (replicate 300 1))\<lparr>exit_status := 1\<rparr>) demo_streamer demo_world)))) = 1
   \<and> procs (snd (snd (play_file ''hello.mp3''
            ((clean_run (replicate 300 1))\<lparr>exit_status := 1\<rparr>) demo_streamer demo_world)))
       = [\<lparr>terminated = True, returncode = Some 1\<rparr>]"
proof -
  let ?env = "(clean_run (replicate 300 1))\<lparr>exit_status := 1\<rparr>"
  obtain r s' w' where pf: "play_file ''hello.mp3'' ?env demo_streamer demo_world = (r, s', w')"
    by (rule prod_cases3)
  have h1: "is_connected demo_streamer" by (simp add: demo_streamer_eq)
  have h2: "spawn_ok ?env" and h3: "read_fault ?env = None" and h4: "capture_fault ?env = None"
    and h5: "even (length (pcm ?env))" and h6: "exit_status ?env \<noteq> 0"
    by (simp_all add: clean_run_def)
  have len: "length (pcm ?env) = 300" and ex: "exit_status ?env = 1"
    by (simp_all add: clean_run_def)
  from play_file_ignores_exit_status [OF h1 h2 h3 h4 h5 h6 pf]
  have "r = Inr ()" and "length (emitted demo_world w') = 1" and "procs w' = [\<lparr>terminated = True, returncode = Some 1\<rparr>]"
    unfolding len ex by (simp_all add: bpf_960 demo_world_eq)
  then show ?thesis using h1 h2 h3 h4 h5 h6 pf by simp
qed

text \<open>
  Claim C2 as stated does not hold: after 300 bytes from a decoder that ends with status
  1, \<^verbatim>\<open>play_file\<close> returns normally, where the claim has it report a decode error.
\<close>

theorem play_file_exit_status_counterexample:
  "exit_status ((clean_run (replicate 300 1))\<lparr>exit_status := 1\<rparr>) = 1
   \<and> fst (play_file ''hello.mp3'' ((clean_run (replicate 300 1))\<lparr>exit_status := 1\<rparr>)
            demo_streamer demo_world) = Inr ()"
proof -
  let ?env = "(clean_run (replicate 300 1))\<lparr>exit_status := 1\<rparr>"
  have h1: "is_connected demo_streamer" by (simp add: demo_streamer_eq)
  have h2: "spawn_ok ?env" and h3: "read_fault ?env = None" and h4: "capture_fault ?env = None"
    and h5: "even (length (pcm ?env))"
    by (simp_all add: clean_run_def)
  from play_file_ok [OF h1 h2 h3 h4 h5, of "''hello.mp3''" demo_world]
  have "fst (play_file ''hello.mp3'' ?env demo_streamer demo_world) = Inr ()" by auto
  then show ?thesis by (simp add: clean_run_def)
qed

subsection \<open>The decoder process after a play\<close>

text \<open>
  Claim C4. Whatever \<^verbatim>\<open>play_file\<close> returns or raises (the end of the stream, a failed
  read, a frame that the audio source refuses, a cancellation), the process table after
  it is the one before it, followed by the process this call started, if it started one;
  on that process \<^verbatim>\<open>terminate()\<close> has been called and then \<^verbatim>\<open>wait()\<close> has returned. So
  every process that the call started has been terminated and waited for, and if every
  process had been waited for before the call, every process has been after it.
\<close>

theorem play_file_reaps:
  assumes "play_file f env s w = (r, s', w')"
  shows "procs w'
           = procs w @ (if is_connected s \<and> spawn_ok env then [\<lparr>terminated = True, returncode = Some (exit_status env)\<rparr>] else [])
       \<and> (\<forall>pid. length (procs w) \<le> pid \<and> pid < length (procs w')
              \<longrightarrow> terminated (procs w' ! pid)
                  \<and> returncode (procs w' ! pid) = Some (exit_status env))
       \<and> ((\<forall>p \<in> set (procs w). returncode p \<noteq> None)
            \<longrightarrow> (\<forall>p \<in> set (procs w'). returncode p \<noteq> None))"
proof -
  have p: "procs w'
           = procs w @ (if is_connected s \<and> spawn_ok env then [\<lparr>terminated = True, returncode = Some (exit_status env)\<rparr>] else [])"
    using play_file_procs [of f env s w] assms by simp
  have q: "\<forall>pid. length (procs w) \<le> pid \<and> pid < length (procs w')
              \<longrightarrow> terminated (procs w' ! pid)
                  \<and> returncode (procs w' ! pid) = Some (exit_status env)"
    unfolding p by (auto simp: nth_append)
  have n: "(\<forall>p \<in> set (procs w). returncode p \<noteq> None)
            \<longrightarrow> (\<forall>p \<in> set (procs w'). returncode p \<noteq> None)"
    unfolding p by auto
  show ?thesis using p q n by (intro conjI) assumption+
qed

theorem play_file_reaps_witness:
  "fst (play_file ''hello.mp3''
          ((clean_run (replicate 1920 3))\<lparr>capture_fault := Some (1, SinkError)\<rparr>)
          demo_streamer demo_world) = Inl SinkError
   \<and> length (emitted demo_world (snd (snd (play_file ''hello.mp3''
          ((clean_run (replicate 1920 3))\<lparr>capture_fault := Some (1, SinkError)\<rparr>)
          demo_streamer demo_world)))) = 1
   \<and> procs (snd (snd (play_file ''hello.mp3''
          ((clean_run (replicate 1920 3))\<lparr>capture_fault := Some (1, SinkError)\<rparr>)
          demo_streamer demo_world))) = [\<lparr>terminated = True, returncode = Some 0\<rparr>]
   \<and> procs demo_world = []
   \<and> map returncode (procs (snd (snd (play_file ''hello.mp3''
          ((clean_run (replicate 1920 3))\<lparr>capture_fault := Some (1, SinkError)\<rparr>)
          demo_streamer demo_world)))) = [Some 0]"
proof -
  let ?env = "(clean_run (replicate 1920 3))\<lparr>capture_fault := Some (1, SinkError)\<rparr>"
  obtain r s' w' where pf: "play_file ''hello.mp3'' ?env demo_streamer demo_world = (r, s', w')"
    by (rule prod_cases3)
  have fb: "\<exists>a. frombuffer (replicate 960 (3::byte)) = Some a"
    using frombuffer_even [of "replicate 960 (3::byte)"] by auto
  have run: "fst (play_file ''hello.mp3'' ?env demo_streamer demo_world) = Inl SinkError
        \<and> length (emitted demo_world (snd (snd (play_file ''hello.mp3'' ?env demo_streamer demo_world)))) = 1"
    using fb
    by (auto simp add: play_file_def clean_run_def demo_streamer_eq demo_world_eq play_loop.simps
        Let_def bpf_960 add_log_def terminate_def wait_def emitted_def)
  from play_file_reaps [OF pf]
  have "procs w' = [\<lparr>terminated = True, returncode = Some 0\<rparr>]"
    by (simp add: demo_world_eq demo_streamer_eq clean_run_def)
  then show ?thesis using run pf by (simp add: demo_world_eq)
qed

subsection \<open>Playing without a connection\<close>

text \<open>
  Claim C6, as amended. On a session whose flag \<open>is_connected\<close> is false, \<^verbatim>\<open>play_file\<close>
  raises \<^verbatim>\<open>RuntimeError\<close> and leaves the streamer and the whole world as they were: no
  process is started, no frame is pushed, nothing is logged. It is the flag that
  \<^verbatim>\<open>play_file\<close> tests, not whether a \<^verbatim>\<open>connect\<close> has succeeded.
\<close>

theorem play_file_not_connected:
  assumes "\<not> is_connected s"
  shows "play_file f env s w = (Inl (RuntimeError ''Not connected. Call connect() first.''), s, w)"
  using assms by (simp add: play_file_def)

theorem play_file_not_connected_witness:
  "\<not> is_connected (AudioStreamer ''room'')
   \<and> play_file ''hello.mp3'' (clean_run [1, 2]) (AudioStreamer ''room'') world0
       = (Inl (RuntimeError ''Not connected. Call connect() first.''), AudioStreamer ''room'', world0)"
  using play_file_not_connected [of "AudioStreamer ''room''" "''hello.mp3''" "clean_run [1, 2]" world0]
  by (simp add: AudioStreamer_def)

text \<open>
  Claim C6 as stated does not hold of every session without a successful \<^verbatim>\<open>connect\<close>:
  \<^verbatim>\<open>connect\<close> sets \<open>is_connected\<close> when \<^verbatim>\<open>room.connect\<close> has returned, before
  \<^verbatim>\<open>publish_track\<close>; when that raises, \<^verbatim>\<open>connect\<close> has failed, the flag is set, and a
  following \<^verbatim>\<open>play_file\<close> starts the decoder and pushes a frame.
\<close>

theorem play_file_half_connected_counterexample:
  "fst (connect (demo_cenv\<lparr>publish_ok := False\<rparr>) (AudioStreamer ''room'') world0) = Inl PublishError
   \<and> fst (play_file ''hello.mp3'' (clean_run [1, 2])
            (fst (snd (connect (demo_cenv\<lparr>publish_ok := False\<rparr>) (AudioStreamer ''room'') world0)))
            (snd (snd (connect (demo_cenv\<lparr>publish_ok := False\<rparr>) (AudioStreamer ''room'') world0))))
       = Inr ()
   \<and> length (procs (snd (snd (play_file ''hello.mp3'' (clean_run [1, 2])
            (fst (snd (connect (demo_cenv\<lparr>publish_ok := False\<rparr>) (AudioStreamer ''room'') world0)))
            (snd (snd (connect (demo_cenv\<lparr>publish_ok := False\<rparr>) (AudioStreamer ''room'') world0))))))) = 1
   \<and> length (sink (snd (snd (play_file ''hello.mp3'' (clean_run [1, 2])
            (fst (snd (connect (demo_cenv\<lparr>publish_ok := False\<rparr>) (AudioStreamer ''room'') world0)))
            (snd (snd (connect (demo_cenv\<lparr>publish_ok := False\<rparr>) (AudioStreamer ''room'') world0))))))) = 1"
proof -
  let ?s = "\<lparr>room_name = ''room'', is_connected = True, is_publishing = False,
             current_track = Some 0\<rparr>"
  let ?w = "\<lparr>room_connects = 1, room_disconnects = 0, tracks_created = 1, publications = [],
             procs = [], sink = [], prompts = 0,
             logged = [ConnectingToRoom ''room'', ConnectedToRoom]\<rparr>"
  have c: "connect (demo_cenv\<lparr>publish_ok := False\<rparr>) (AudioStreamer ''room'') world0
             = (Inl PublishError, ?s, ?w)"
    by (simp add: demo_cenv_def connect_def AudioStreamer_def world0_def truthy_def add_log_def
        Let_def)
  have h: "is_connected ?s" "spawn_ok (clean_run [1, 2])" "read_fault (clean_run [1, 2]) = None"
    "capture_fault (clean_run [1, 2]) = None" "even (length (pcm (clean_run [1, 2])))"
    by (simp_all add: clean_run_def)
  from play_file_ok [OF h, of "''hello.mp3''" ?w]
  obtain fs w' where pf: "play_file ''hello.mp3'' (clean_run [1, 2]) ?s ?w = (Inr (), ?s, w')"
    and snk: "sink w' = sink ?w @ fs"
    and pr: "procs w' = procs ?w @ [\<lparr>terminated = True, returncode = Some (exit_status (clean_run [1, 2]))\<rparr>]"
    and len: "length fs = (length (pcm (clean_run [1, 2])) + (bytes_per_frame - 1)) div bytes_per_frame"
    by blast
  have "length fs = 1" using len by (simp add: clean_run_def bpf_960)
  then show ?thesis using c pf snk pr by simp
qed

subsection \<open>The session after a failed play\<close>

text \<open>
  Claim C7. When \<^verbatim>\<open>play_file\<close> fails on a connected session, the streamer is unchanged:
  it is still connected and holds the same track; the room has seen no further connect,
  disconnect or publication; and a following \<^verbatim>\<open>play_file\<close> in which nothing fails
  succeeds with no \<^verbatim>\<open>connect\<close> in between.
\<close>

theorem play_file_failure_keeps_session:
  assumes "is_connected s" and "play_file f env s w = (Inl e, s', w')"
  shows "s' = s \<and> is_connected s' \<and> current_track s' = current_track s
       \<and> is_publishing s' = is_publishing s
       \<and> publications w' = publications w
       \<and> room_connects w' = room_connects w
       \<and> room_disconnects w' = room_disconnects w
       \<and> (spawn_ok env2 \<and> read_fault env2 = None \<and> capture_fault env2 = None
            \<and> even (length (pcm env2))
          \<longrightarrow> fst (play_file f2 env2 s' w') = Inr ())"
proof -
  have s: "s' = s" using play_file_streamer [of f env s w] assms(2) by simp
  have fr: "publications w' = publications w \<and> room_connects w' = room_connects w
            \<and> room_disconnects w' = room_disconnects w"
    using play_file_frame [of f env s w] assms(2) by simp
  have nxt: "spawn_ok env2 \<and> read_fault env2 = None \<and> capture_fault env2 = None
            \<and> even (length (pcm env2))
          \<longrightarrow> fst (play_file f2 env2 s w') = Inr ()"
  proof
    assume a: "spawn_ok env2 \<and> read_fault env2 = None \<and> capture_fault env2 = None
            \<and> even (length (pcm env2))"
    from play_file_ok [OF assms(1), of env2 f2 w'] a
    show "fst (play_file f2 env2 s w') = Inr ()" by auto
  qed
  show ?thesis using s fr nxt assms(1) by simp
qed

theorem play_file_failure_keeps_session_witness:
  "is_connected demo_streamer
   \<and> fst (play_file ''hello.mp3'' ((clean_run [])\<lparr>spawn_ok := False\<rparr>) demo_streamer demo_world)
       = Inl OSError
   \<and> fst (snd (play_file ''hello.mp3'' ((clean_run [])\<lparr>spawn_ok := False\<rparr>)
        demo_streamer demo_world)) = demo_streamer
   \<and> current_track demo_streamer = Some 0
   \<and> fst (play_file ''hello.mp3'' (clean_run [1, 2]) demo_streamer
        (snd (snd (play_file ''hello.mp3'' ((clean_run [])\<lparr>spawn_ok := False\<rparr>)
           demo_streamer demo_world)))) = Inr ()"
proof -
  let ?env = "(clean_run [])\<lparr>spawn_ok := False\<rparr>"
  have h1: "is_connected demo_streamer" by (simp add: demo_streamer_eq)
  have r: "fst (play_file ''hello.mp3'' ?env demo_streamer demo_world) = Inl OSError"
    by (simp add: play_file_def clean_run_def demo_streamer_eq Let_def)
  then obtain s' w' where
    pf: "play_file ''hello.mp3'' ?env demo_streamer demo_world = (Inl OSError, s', w')"
    by (metis prod.collapse)
  have h2: "spawn_ok (clean_run [1, 2]) \<and> read_fault (clean_run [1, 2]) = None
            \<and> capture_fault (clean_run [1, 2]) = None \<and> even (length (pcm (clean_run [1, 2])))"
    by (simp add: clean_run_def)
  from play_file_failure_keeps_session [OF h1 pf, of "clean_run [1, 2]" "''hello.mp3''"] h2
  have "s' = demo_streamer" and "fst (play_file ''hello.mp3'' (clean_run [1, 2]) s' w') = Inr ()"
    by blast+
  then show ?thesis using h1 r pf by (simp add: demo_streamer_eq)
qed

subsection \<open>\<^verbatim>\<open>disconnect\<close>\<close>

text \<open>
  Claim C8. \<^verbatim>\<open>disconnect\<close> on a session that is not connected changes nothing and
  raises nothing; any \<^verbatim>\<open>disconnect\<close> returns normally and leaves the session not
  connected; it calls \<^verbatim>\<open>room.disconnect\<close> once if the session was connected and not at
  all otherwise; and a second \<^verbatim>\<open>disconnect\<close> right after a first changes nothing. Here
  \<^verbatim>\<open>room.disconnect()\<close> itself is taken to return.
\<close>

theorem disconnect_idempotent:
  "(\<not> is_connected s \<longrightarrow> disconnect s w = (Inr (), s, w))
   \<and> fst (disconnect s w) = Inr ()
   \<and> \<not> is_connected (fst (snd (disconnect s w)))
   \<and> room_disconnects (snd (snd (disconnect s w)))
       = room_disconnects w + (if is_connected s then 1 else 0)
   \<and> disconnect (fst (snd (disconnect s w))) (snd (snd (disconnect s w)))
       = (Inr (), fst (snd (disconnect s w)), snd (snd (disconnect s w)))"
  by (simp add: disconnect_def add_log_def)

theorem disconnect_idempotent_witness:
  "\<not> is_connected (AudioStreamer ''room'')
   \<and> disconnect (AudioStreamer ''room'') world0 = (Inr (), AudioStreamer ''room'', world0)
   \<and> room_disconnects (snd (snd (disconnect demo_streamer demo_world))) = 1
   \<and> room_disconnects (snd (snd (disconnect (fst (snd (disconnect demo_streamer demo_world)))
        (snd (snd (disconnect demo_streamer demo_world)))))) = 1"
  using disconnect_idempotent [of "AudioStreamer ''room''" world0]
    disconnect_idempotent [of demo_streamer demo_world]
  by (simp add: AudioStreamer_def demo_streamer_eq demo_world_eq)


lemma connect_fresh:
  assumes "\<not> is_connected s0" and "connect ce s0 w0 = (Inr u, s, w)"
  shows "is_connected s \<and> current_track s = Some (tracks_created w0)
       \<and> tracks_created w = tracks_created w0 + 1
       \<and> publications w = publications w0 @ [tracks_created w0]
       \<and> room_connects w = room_connects w0 + 1
       \<and> room_disconnects w = room_disconnects w0
       \<and> prompts w = prompts w0"
  using assms by (auto simp: connect_def Let_def add_log_def split: if_splits)


subsection \<open>\<^verbatim>\<open>connect\<close>\<close>




subsection \<open>The room name\<close>

text \<open>
  Claim C10. When the line typed for the room name is empty after \<^verbatim>\<open>strip()\<close>,
  \<^verbatim>\<open>main\<close> raises before \<^verbatim>\<open>AudioStreamer(room_name)\<close> runs and leaves the world as it was,
  so no connection has been attempted; with the input file present the error is
  \<^verbatim>\<open>ValueError("Room name cannot be empty")\<close>; and the program ends with a status other
  than 0.
\<close>

theorem main_empty_room:
  assumes "room_line menv = Some l" and "strip l = []"
  shows "(\<exists>e. main menv w = (Inl e, None, w))
       \<and> (isfile menv \<longrightarrow> main menv w = (Inl (ValueError ''Room name cannot be empty''), None, w))
       \<and> process_exit (fst (main menv w)) \<noteq> 0"
  using assms by (simp add: main_def process_exit_def)

theorem main_empty_room_witness:
  "room_line ((demo_menv [])\<lparr>room_line := Some ''   ''\<rparr>) = Some ''   ''
   \<and> strip ''   '' = []
   \<and> main ((demo_menv [])\<lparr>room_line := Some ''   ''\<rparr>) world0
       = (Inl (ValueError ''Room name cannot be empty''), None, world0)
   \<and> process_exit (fst (main ((demo_menv [])\<lparr>room_line := Some ''   ''\<rparr>) world0)) = 1"
proof -
  let ?m = "(demo_menv [])\<lparr>room_line := Some ''   ''\<rparr>"
  have h1: "room_line ?m = Some ''   ''" by simp
  have h2: "strip ''   '' = []" by (simp add: strip_def isspace_def)
  have h3: "isfile ?m" by (simp add: demo_menv_def)
  from main_empty_room [OF h1 h2, of world0] h3
  have m: "main ?m world0 = (Inl (ValueError ''Room name cannot be empty''), None, world0)"
    by blast
  then show ?thesis using h1 h2 by (simp add: process_exit_def)
qed

subsection \<open>The loop of \<^verbatim>\<open>main\<close>\<close>

lemma play_file_plays:
  "is_connected s \<Longrightarrow> plays f (snd (snd (play_file f env s w))) = plays f w + 1"
  by (simp add: play_file_def plays_def Let_def add_log_def terminate_def wait_def
      split: prod.splits)

lemma loop_body_quit:
  "lower (strip l) = ''q'' \<Longrightarrow> loop_body f (l, env) s w = (Break, s, w\<lparr>prompts := prompts w + 1\<rparr>)"
  by (simp add: loop_body_def)

lemma loop_body_play:
  assumes "lower (strip l) \<noteq> ''q''"
  shows "loop_body f (l, env) s w =
           (case play_file f env s (w\<lparr>prompts := prompts w + 1\<rparr>) of
              (Inl e, s', w') \<Rightarrow> (Raise e, s', w')
            | (Inr u, s', w') \<Rightarrow> (Continue, s', w'))"
  using assms by (simp add: loop_body_def)

lemma loop_body_frame:
  assumes "loop_body f inp s w = (it, s', w')"
  shows "s' = s \<and> prompts w' = prompts w + 1 \<and> room_disconnects w' = room_disconnects w"
proof (cases "lower (strip (fst inp)) = ''q''")
  case True
  then show ?thesis using assms by (auto simp: loop_body_def)
next
  case False
  let ?w1 = "w\<lparr>prompts := prompts w + 1\<rparr>"
  obtain r s1 w1 where pf: "play_file f (snd inp) s ?w1 = (r, s1, w1)" by (rule prod_cases3)
  have s1: "s1 = s" using play_file_streamer [of f "snd inp" s ?w1] pf by simp
  have fr: "prompts w1 = prompts w + 1 \<and> room_disconnects w1 = room_disconnects w"
    using play_file_frame [of f "snd inp" s ?w1] pf by simp
  have "s' = s1 \<and> w' = w1"
    using assms False pf by (auto simp: loop_body_def split: sum.splits)
  then show ?thesis using s1 fr by simp
qed

lemma control_loop_prompts: "prompts w < prompts (snd (snd (control_loop f xs s w)))"
proof (induction xs arbitrary: s w)
  case Nil
  then show ?case by simp
next
  case (Cons inp xs)
  obtain it s' w' where lb: "loop_body f inp s w = (it, s', w')" by (rule prod_cases3)
  have p: "prompts w' = prompts w + 1" using loop_body_frame [OF lb] by simp
  show ?case
  proof (cases it)
    case Break
    then show ?thesis using lb p by simp
  next
    case Continue
    then show ?thesis using lb p Cons.IH [of w' s'] by simp
  next
    case (Raise e)
    then show ?thesis using lb p by simp
  qed
qed

lemma control_loop_passes:
  "passes f pre s w = Some (s', w') \<Longrightarrow> control_loop f (pre @ rest) s w = control_loop f rest s' w'"
proof (induction pre arbitrary: s w)
  case Nil
  then show ?case by simp
next
  case (Cons inp pre)
  obtain it s1 w1 where lb: "loop_body f inp s w = (it, s1, w1)" by (rule prod_cases3)
  show ?case
  proof (cases it)
    case Continue
    then have "passes f pre s1 w1 = Some (s', w')" using Cons.prems lb by simp
    from Cons.IH [OF this] show ?thesis using lb Continue by simp
  next
    case Break
    then show ?thesis using Cons.prems lb by simp
  next
    case (Raise e)
    then show ?thesis using Cons.prems lb by simp
  qed
qed

lemma passes_frame:
  "passes f pre s w = Some (s', w') \<Longrightarrow>
     s' = s \<and> prompts w' = prompts w + length pre \<and> room_disconnects w' = room_disconnects w"
proof (induction pre arbitrary: s w)
  case Nil
  then show ?case by simp
next
  case (Cons inp pre)
  obtain it s1 w1 where lb: "loop_body f inp s w = (it, s1, w1)" by (rule prod_cases3)
  note fr = loop_body_frame [OF lb]
  show ?case
  proof (cases it)
    case Continue
    then have "passes f pre s1 w1 = Some (s', w')" using Cons.prems lb by simp
    from Cons.IH [OF this] show ?thesis using fr by simp
  next
    case Break
    then show ?thesis using Cons.prems lb by simp
  next
    case (Raise e)
    then show ?thesis using Cons.prems lb by simp
  qed
qed

text \<open>
  Claim C9. In the loop of \<^verbatim>\<open>main\<close>, where the session is connected, one pass asks for
  one line and leaves the loop by \<^verbatim>\<open>break\<close> if and only if the line, stripped and in
  lower case, is \<open>q\<close>. Then the loop itself returns normally, with nothing played and
  none of the lines that follow read; and the loop returns normally after this one
  prompt only then. For every other line, empty or not, the pass calls \<^verbatim>\<open>play_file\<close> on
  the configured file exactly once; if that call raises, the loop ends with its error,
  and otherwise the loop goes on to the next prompt, after the call has returned.
\<close>

theorem loop_body_quit_iff:
  assumes "is_connected s" and "loop_body f (l, env) s w = (it, s', w')"
  shows "(it = Break \<longleftrightarrow> lower (strip l) = ''q'')
       \<and> prompts w' = prompts w + 1
       \<and> (lower (strip l) = ''q'' \<longrightarrow>
            s' = s \<and> w' = w\<lparr>prompts := prompts w + 1\<rparr> \<and> plays f w' = plays f w)
       \<and> (lower (strip l) \<noteq> ''q'' \<longrightarrow>
            plays f w' = plays f w + 1
            \<and> (s', w') = snd (play_file f env s (w\<lparr>prompts := prompts w + 1\<rparr>))
            \<and> (it = Continue \<longleftrightarrow> fst (play_file f env s (w\<lparr>prompts := prompts w + 1\<rparr>)) = Inr ())
            \<and> (it = Continue \<longrightarrow>
                 control_loop f ((l, env) # rest) s w = control_loop f rest s' w'))
       \<and> (lower (strip l) = ''q'' \<longrightarrow>
            control_loop f ((l, env) # rest) s w = (Inr (), s, w\<lparr>prompts := prompts w + 1\<rparr>))
       \<and> (lower (strip l) \<noteq> ''q'' \<longrightarrow>
            control_loop f ((l, env) # rest) s w
              = (case play_file f env s (w\<lparr>prompts := prompts w + 1\<rparr>) of
                   (Inl e, s1, w1) \<Rightarrow> (Inl e, s1, w1)
                 | (Inr u, s1, w1) \<Rightarrow> control_loop f rest s1 w1))
       \<and> ((fst (control_loop f ((l, env) # rest) s w) = Inr ()
             \<and> prompts (snd (snd (control_loop f ((l, env) # rest) s w))) = prompts w + 1)
            \<longleftrightarrow> lower (strip l) = ''q'')"
proof (cases "lower (strip l) = ''q''")
  case True
  then show ?thesis using assms(2) by (auto simp: loop_body_quit plays_def)
next
  case False
  let ?w1 = "w\<lparr>prompts := prompts w + 1\<rparr>"
  obtain r s1 w1 where pf: "play_file f env s ?w1 = (r, s1, w1)" by (rule prod_cases3)
  have pl: "plays f w1 = plays f w + 1"
    using play_file_plays [OF assms(1), of f env ?w1] pf by (simp add: plays_def)
  have pr: "prompts w1 = prompts w + 1"
    using play_file_frame [of f env s ?w1] pf by simp
  have lb: "(it, s', w') = (case r of Inl e \<Rightarrow> (Raise e, s1, w1) | Inr u \<Rightarrow> (Continue, s1, w1))"
    using assms(2) False pf by (auto simp: loop_body_play split: sum.splits)
  then have eq: "s' = s1" "w' = w1" and it: "it = (case r of Inl e \<Rightarrow> Raise e | Inr u \<Rightarrow> Continue)"
    by (simp_all split: sum.splits)
  have cl: "it = Continue \<longrightarrow> control_loop f ((l, env) # rest) s w = control_loop f rest s' w'"
    using assms(2) by simp
  have cl2: "control_loop f ((l, env) # rest) s w
              = (case play_file f env s ?w1 of
                   (Inl e, s1, w1) \<Rightarrow> (Inl e, s1, w1)
                 | (Inr u, s1, w1) \<Rightarrow> control_loop f rest s1 w1)"
    using False pf by (simp add: loop_body_play split: sum.splits)
  have nq: "\<not> (fst (control_loop f ((l, env) # rest) s w) = Inr ()
             \<and> prompts (snd (snd (control_loop f ((l, env) # rest) s w))) = prompts w + 1)"
  proof (cases r)
    case (Inl e)
    then show ?thesis using cl2 pf by simp
  next
    case (Inr u)
    then have "control_loop f ((l, env) # rest) s w = control_loop f rest s1 w1"
      using cl2 pf by simp
    moreover have "prompts w1 < prompts (snd (snd (control_loop f rest s1 w1)))"
      by (rule control_loop_prompts)
    ultimately show ?thesis using pr by simp
  qed
  have a: "(it = Break \<longleftrightarrow> lower (strip l) = ''q'')" using False it by (simp split: sum.splits)
  have b: "prompts w' = prompts w + 1" using eq pr by simp
  have c: "lower (strip l) \<noteq> ''q'' \<longrightarrow>
            plays f w' = plays f w + 1
            \<and> (s', w') = snd (play_file f env s ?w1)
            \<and> (it = Continue \<longleftrightarrow> fst (play_file f env s ?w1) = Inr ())
            \<and> (it = Continue \<longrightarrow>
                 control_loop f ((l, env) # rest) s w = control_loop f rest s' w')"
    using pl eq it pf cl by (auto split: sum.splits)
  show ?thesis using False a b c cl2 nq by simp
qed

theorem loop_body_quit_iff_witness:
  "is_connected demo_streamer
   \<and> lower (strip ''  Q '') = ''q''
   \<and> fst (loop_body ''hello.mp3'' (''  Q '', clean_run [1, 2]) demo_streamer demo_world) = Break
   \<and> plays ''hello.mp3''
        (snd (snd (loop_body ''hello.mp3'' (''  Q '', clean_run [1, 2]) demo_streamer demo_world))) = 0
   \<and> control_loop ''hello.mp3'' [(''  Q '', clean_run [1, 2]), ('''', clean_run [1, 2])]
        demo_streamer demo_world
       = (Inr (), demo_streamer, demo_world\<lparr>prompts := 1\<rparr>)
   \<and> lower (strip '''') \<noteq> ''q''
   \<and> fst (loop_body ''hello.mp3'' ('''', clean_run [1, 2]) demo_streamer demo_world) = Continue
   \<and> plays ''hello.mp3''
        (snd (snd (loop_body ''hello.mp3'' ('''', clean_run [1, 2]) demo_streamer demo_world))) = 1"
proof -
  have h1: "is_connected demo_streamer" by (simp add: demo_streamer_eq)
  have q: "lower (strip ''  Q '') = ''q''"
    by (simp add: lower_def strip_def isspace_def lower_char_def char_of_def bit_Suc_0_iff)
  have nq: "lower (strip '''') \<noteq> ''q''"
    by (simp add: lower_def strip_def)
  have p0: "plays ''hello.mp3'' demo_world = 0" by (simp add: plays_def demo_world_eq)
  have pr0: "prompts demo_world = 0" by (simp add: demo_world_eq)
  obtain it s' w' where
    a: "loop_body ''hello.mp3'' (''  Q '', clean_run [1, 2]) demo_streamer demo_world = (it, s', w')"
    by (rule prod_cases3)
  obtain it2 s2 w2 where
    b: "loop_body ''hello.mp3'' ('''', clean_run [1, 2]) demo_streamer demo_world = (it2, s2, w2)"
    by (rule prod_cases3)
  have ok: "fst (play_file ''hello.mp3'' (clean_run [1, 2]) demo_streamer
              (demo_world\<lparr>prompts := prompts demo_world + 1\<rparr>)) = Inr ()"
  proof -
    have c: "spawn_ok (clean_run [1, 2])" "read_fault (clean_run [1, 2]) = None"
      "capture_fault (clean_run [1, 2]) = None" "even (length (pcm (clean_run [1, 2])))"
      by (simp_all add: clean_run_def)
    from play_file_ok [OF h1 c, of "''hello.mp3''" "demo_world\<lparr>prompts := prompts demo_world + 1\<rparr>"]
    show ?thesis by auto
  qed
  from loop_body_quit_iff [OF h1 a, of "[('''', clean_run [1, 2])]"] q
  have "it = Break" and "plays ''hello.mp3'' w' = plays ''hello.mp3'' demo_world"
    and "control_loop ''hello.mp3'' [(''  Q '', clean_run [1, 2]), ('''', clean_run [1, 2])]
           demo_streamer demo_world
          = (Inr (), demo_streamer, demo_world\<lparr>prompts := prompts demo_world + 1\<rparr>)"
    by blast+
  moreover from loop_body_quit_iff [OF h1 b] nq ok
  have "it2 = Continue" and "plays ''hello.mp3'' w2 = plays ''hello.mp3'' demo_world + 1"
    by blast+
  ultimately show ?thesis using h1 q nq a b p0 pr0 by simp
qed

text \<open>
  Claim C3, as amended. Nothing in the loop catches what \<^verbatim>\<open>play_file\<close> raises. When,
  after any number of passes that went on to the next prompt, the play started by a line
  raises, the loop ends with that error and asks for no further line; \<^verbatim>\<open>main\<close>
  disconnects once in its \<^verbatim>\<open>finally\<close> block, which adds the one log entry of
  \<^verbatim>\<open>disconnect\<close> to what \<^verbatim>\<open>play_file\<close> left and no entry for the error, and passes the
  error on; the program ends with status 1.
\<close>

theorem play_error_ends_main:
  assumes "isfile menv" and "room_line menv = Some l" and "strip l \<noteq> []"
    and "connect (cenv menv) (AudioStreamer (strip l)) w = (Inr u, s1, w1)"
    and "interactions menv = pre @ (x, env) # rest"
    and "passes (input_file menv) pre s1 w1 = Some (s2, w2)"
    and "lower (strip x) \<noteq> ''q''"
    and "play_file (input_file menv) env s2 (w2\<lparr>prompts := prompts w2 + 1\<rparr>) = (Inl e, s3, w3)"
  shows "control_loop (input_file menv) (pre @ (x, env) # rest) s1 w1 = (Inl e, s3, w3)
       \<and> main menv w
           = (Inl e, Some (s3\<lparr>is_connected := False\<rparr>),
              add_log DisconnectedFromRoom (w3\<lparr>room_disconnects := room_disconnects w3 + 1\<rparr>))
       \<and> process_exit (fst (main menv w)) = 1
       \<and> prompts (snd (snd (main menv w))) = prompts w + length pre + 1
       \<and> room_disconnects (snd (snd (main menv w))) = room_disconnects w + 1
       \<and> logged (snd (snd (main menv w))) = logged w3 @ [DisconnectedFromRoom]"
proof -
  have nc: "\<not> is_connected (AudioStreamer (strip l))" by (simp add: AudioStreamer_def)
  from connect_fresh [OF nc assms(4)]
  have c1: "is_connected s1" and p1: "prompts w1 = prompts w"
    and d1: "room_disconnects w1 = room_disconnects w"
    by simp_all
  from passes_frame [OF assms(6)]
  have s2: "s2 = s1" and p2: "prompts w2 = prompts w1 + length pre"
    and d2: "room_disconnects w2 = room_disconnects w1"
    by simp_all
  have s3: "s3 = s2"
    using play_file_streamer [of "input_file menv" env s2 "w2\<lparr>prompts := prompts w2 + 1\<rparr>"]
      assms(8) by simp
  have fr: "prompts w3 = prompts w2 + 1 \<and> room_disconnects w3 = room_disconnects w2"
    using play_file_frame [of "input_file menv" env s2 "w2\<lparr>prompts := prompts w2 + 1\<rparr>"]
      assms(8) by simp
  have "control_loop (input_file menv) ((x, env) # rest) s2 w2 = (Inl e, s3, w3)"
    using assms(7,8) by (simp add: loop_body_play)
  then have cl: "control_loop (input_file menv) (pre @ (x, env) # rest) s1 w1 = (Inl e, s3, w3)"
    using control_loop_passes [OF assms(6), of "(x, env) # rest"] by simp
  have dc: "disconnect s3 w3
              = (Inr (), s3\<lparr>is_connected := False\<rparr>,
                 add_log DisconnectedFromRoom (w3\<lparr>room_disconnects := room_disconnects w3 + 1\<rparr>))"
    using c1 s2 s3 by (simp add: disconnect_def)
  have m: "main menv w = (Inl e, Some (s3\<lparr>is_connected := False\<rparr>),
             add_log DisconnectedFromRoom (w3\<lparr>room_disconnects := room_disconnects w3 + 1\<rparr>))"
    using assms(1,2,3,4,5) cl dc by (simp add: main_def Let_def)
  show ?thesis using cl m fr p1 d1 p2 d2 by (simp add: process_exit_def add_log_def)
qed

theorem play_error_ends_main_witness:
  "isfile (demo_menv [('''', clean_run [1, 2]), ('''', (clean_run [])\<lparr>spawn_ok := False\<rparr>),
                       (''q'', clean_run [])])
   \<and> strip ''room'' \<noteq> []
   \<and> lower (strip '''') \<noteq> ''q''
   \<and> passes ''hello.mp3'' [('''', clean_run [1, 2])] demo_streamer demo_world \<noteq> None
   \<and> fst (main (demo_menv [('''', clean_run [1, 2]), ('''', (clean_run [])\<lparr>spawn_ok := False\<rparr>),
                       (''q'', clean_run [])]) world0) = Inl OSError
   \<and> process_exit (fst (main (demo_menv [('''', clean_run [1, 2]),
                       ('''', (clean_run [])\<lparr>spawn_ok := False\<rparr>), (''q'', clean_run [])]) world0)) = 1
   \<and> prompts (snd (snd (main (demo_menv [('''', clean_run [1, 2]),
                       ('''', (clean_run [])\<lparr>spawn_ok := False\<rparr>), (''q'', clean_run [])]) world0))) = 2
   \<and> room_disconnects (snd (snd (main (demo_menv [('''', clean_run [1, 2]),
                       ('''', (clean_run [])\<lparr>spawn_ok := False\<rparr>), (''q'', clean_run [])]) world0))) = 1"
proof -
  let ?bad = "(clean_run [])\<lparr>spawn_ok := False\<rparr>"
  let ?pre = "[('''' :: string, clean_run [1, 2])]"
  let ?m = "demo_menv [('''', clean_run [1, 2]), ('''', ?bad), (''q'', clean_run [])]"
  have h1: "isfile ?m" and h2: "room_line ?m = Some ''room''"
    and h5: "interactions ?m = ?pre @ ('''', ?bad) # [(''q'', clean_run [])]"
    and f: "input_file ?m = ''hello.mp3''"
    by (simp_all add: demo_menv_def)
  have sr: "strip ''room'' = ''room''" by (simp add: strip_def isspace_def)
  have h3: "strip ''room'' \<noteq> []" by (simp add: sr)
  have h4: "connect (cenv ?m) (AudioStreamer (strip ''room'')) world0 = (Inr (), demo_streamer, demo_world)"
    by (simp add: sr demo_menv_def demo_streamer_def demo_world_def demo_cenv_def connect_def
        AudioStreamer_def truthy_def Let_def)
  have h7: "lower (strip '''') \<noteq> ''q''" by (simp add: lower_def strip_def)
  have c1: "is_connected demo_streamer" by (simp add: demo_streamer_eq)
  have c: "spawn_ok (clean_run [1, 2])" "read_fault (clean_run [1, 2]) = None"
    "capture_fault (clean_run [1, 2]) = None" "even (length (pcm (clean_run [1, 2])))"
    by (simp_all add: clean_run_def)
  from play_file_ok [OF c1 c, of "''hello.mp3''" "demo_world\<lparr>prompts := prompts demo_world + 1\<rparr>"]
  obtain w2 where pf: "play_file ''hello.mp3'' (clean_run [1, 2]) demo_streamer
                         (demo_world\<lparr>prompts := prompts demo_world + 1\<rparr>) = (Inr (), demo_streamer, w2)"
    by blast
  have h6: "passes (input_file ?m) ?pre demo_streamer demo_world = Some (demo_streamer, w2)"
    using h7 pf by (simp add: f loop_body_def)
  have h8: "play_file (input_file ?m) ?bad demo_streamer (w2\<lparr>prompts := prompts w2 + 1\<rparr>)
              = (Inl OSError, demo_streamer,
                 add_log AudioDuration (add_log (Playing ''hello.mp3'')
                   (w2\<lparr>prompts := prompts w2 + 1\<rparr>)))"
    unfolding f by (simp add: play_file_def clean_run_def demo_streamer_eq Let_def)
  note res = play_error_ends_main [OF h1 h2 h3 h4 h5 h6 h7 h8]
  from res have "\<exists>s w. main ?m world0 = (Inl OSError, s, w)" by blast
  then have "fst (main ?m world0) = Inl OSError" by auto
  moreover have "process_exit (fst (main ?m world0)) = 1"
    by (rule res [THEN conjunct2, THEN conjunct2, THEN conjunct1])
  moreover have "prompts (snd (snd (main ?m world0))) = prompts world0 + length ?pre + 1"
    by (rule res [THEN conjunct2, THEN conjunct2, THEN conjunct2, THEN conjunct1])
  moreover have "room_disconnects (snd (snd (main ?m world0))) = room_disconnects world0 + 1"
    by (rule res [THEN conjunct2, THEN conjunct2, THEN conjunct2, THEN conjunct2, THEN conjunct1])
  moreover have "passes ''hello.mp3'' ?pre demo_streamer demo_world \<noteq> None"
    using h6 by (simp add: f)
  ultimately show ?thesis using h1 h3 h7 by (simp add: world0_def)
qed

text \<open>
  Claim C3 as stated does not hold: when \<^verbatim>\<open>ffmpeg\<close> cannot be started for the first
  play, \<^verbatim>\<open>main\<close> ends with that error after one prompt, though two more lines (a second
  play and \<open>q\<close>) are waiting, and the program's status is not 0.
\<close>

theorem play_error_counterexample:
  "fst (main (demo_menv [('''', (clean_run [])\<lparr>spawn_ok := False\<rparr>), ('''', clean_run [1, 2]),
                       (''q'', clean_run [])]) world0) = Inl OSError
   \<and> prompts (snd (snd (main (demo_menv [('''', (clean_run [])\<lparr>spawn_ok := False\<rparr>),
                       ('''', clean_run [1, 2]), (''q'', clean_run [])]) world0))) = 1
   \<and> process_exit (fst (main (demo_menv [('''', (clean_run [])\<lparr>spawn_ok := False\<rparr>),
                       ('''', clean_run [1, 2]), (''q'', clean_run [])]) world0)) \<noteq> 0"
  by (simp add: main_def demo_menv_def demo_cenv_def connect_def disconnect_def AudioStreamer_def
      world0_def truthy_def add_log_def Let_def strip_def isspace_def lower_def loop_body_def
      play_file_def clean_run_def process_exit_def)

end
